theory Spec2Isabelle
  imports Main "HOL-Library.Word"
begin

section \<open>The AI event exporter of snort3-ai-ops\<close>

text \<open>
  A shallow embedding of \<^verbatim>\<open>snort3-plugins/event_exporter/ai_event_exporter.cc\<close> and
  its header: the configuration, the inspector's state, the bounded event buffer filled
  by \<^verbatim>\<open>send_event\<close>, the drain loop of \<^verbatim>\<open>flush_buffer\<close> and the entry points
  \<^verbatim>\<open>eval\<close> and \<^verbatim>\<open>tterm\<close>.

  The model follows one thread through the code. The sizes (\<^verbatim>\<open>size_t\<close>) are natural
  numbers, since a queue length never wraps; the two counters are \<^verbatim>\<open>uint64_t\<close> and
  wrap, so they are 64-bit words.
\<close>

subsection \<open>Configuration (ai_event_exporter.h, lines 30-39)\<close>

record AIEventExporterConfig =
  endpoint :: string
  export_alerts :: bool
  export_flows :: bool
  export_stats :: bool
  min_severity :: string
  buffer_size :: nat
  flush_interval :: "32 word"

text \<open>The values the constructor of \<^verbatim>\<open>AIEventExporterModule\<close> stores (lines 61-67).\<close>

definition default_config :: AIEventExporterConfig where
  "default_config =
     \<lparr>endpoint = ''tcp://127.0.0.1:5555'', export_alerts = True, export_flows = True,
      export_stats = False, min_severity = ''low'', buffer_size = 10000,
      flush_interval = 1000\<rparr>"

subsection \<open>The host's packets\<close>

text \<open>
  \<^verbatim>\<open>snort::Packet\<close> and \<^verbatim>\<open>snort::Flow\<close> are types of the host. \<^verbatim>\<open>eval\<close> reads
  three things of a packet: whether \<^verbatim>\<open>p->active\<close> is set and the action it reports,
  whether \<^verbatim>\<open>p->flow\<close> is set, and that flow's \<^verbatim>\<open>flow_state\<close>. The enumerations are
  kept as numbers, as the C++ comparison \<^verbatim>\<open>get_action() > Active::ACT_PASS\<close> reads them.
\<close>

datatype severity = Low | Medium | High | Critical

record Flow =
  flow_state :: nat

text \<open>
  Modelled from the spec: the field \<open>severity\<close> is the severity tag of the alert a
  packet carries ("an alert tagged low"). No line of the source reads a severity of a
  packet; the field is here so that inputs of different severity can be told apart.
\<close>

record Packet =
  active :: "nat option"
  flow :: "Flow option"
  severity :: severity

text \<open>
  What the plugin takes from the host and from the JSON library, neither of which is
  part of the repository: the two enumerators \<^verbatim>\<open>eval\<close> compares with, and the two
  serializers. The text a serializer returns holds a wall-clock time stamp and addresses
  printed by the host, so it is a parameter; \<open>None\<close> stands for a serializer that throws.
\<close>

record Host =
  ACT_PASS :: nat
  INSPECT :: nat
  serialize_packet :: "Packet \<Rightarrow> string option"
  serialize_flow :: "Flow \<Rightarrow> string option"

subsection \<open>The inspector's state (ai_event_exporter.h, lines 94-101)\<close>

text \<open>
  \<open>event_buffer\<close> is the \<^verbatim>\<open>std::queue\<close>, oldest event first. \<open>zmq_socket\<close> is
  the socket after a successful \<^verbatim>\<open>configure\<close>, seen as the list of the messages it has
  accepted, in order. \<open>buffer_mutex\<close> says whether the thread that runs the code holds
  the \<^verbatim>\<open>std::mutex\<close>.
\<close>

record AIEventExporter =
  zmq_socket :: "string list"
  event_buffer :: "string list"
  buffer_mutex :: bool
  events_sent :: "64 word"
  events_dropped :: "64 word"

text \<open>The constructor (lines 104-108) followed by a successful \<^verbatim>\<open>configure\<close>.\<close>

definition configured_exporter :: AIEventExporter where
  "configured_exporter =
     \<lparr>zmq_socket = [], event_buffer = [], buffer_mutex = False,
      events_sent = 0, events_dropped = 0\<rparr>"

subsection \<open>Outcomes\<close>

text \<open>
  A call either returns, or the thread leaves the defined behaviour of C++ at one of
  two places:
  \<^item> \<open>Relock\<close>: \<^verbatim>\<open>lock_guard\<close> locks a \<^verbatim>\<open>std::mutex\<close> that the same thread already
    holds. \<^verbatim>\<open>std::mutex\<close> is not recursive; the behaviour is undefined, and with the
    usual pthread mutex the thread waits for itself and never returns;
  \<^item> \<open>PopEmpty\<close>: \<^verbatim>\<open>pop()\<close> on an empty queue.
  A fault carries the state at that moment, the mutex still held.
\<close>

datatype fault = Relock | PopEmpty

datatype outcome = Done AIEventExporter | Fault fault AIEventExporter

fun state_of :: "outcome \<Rightarrow> AIEventExporter" where
  "state_of (Done s) = s"
| "state_of (Fault f s) = s"

subsection \<open>The transport\<close>

text \<open>
  \<^verbatim>\<open>zmq_socket->send(message, zmq::send_flags::dontwait)\<close> has three outcomes: a
  result that holds a value (sent), an empty result (the send would block), and an
  exception, as do the two lines that build the message inside the same \<^verbatim>\<open>try\<close>. The
  socket's answers are out of the program's hands: a \<open>sink\<close> gives the answer to the
  \<open>i\<close>-th send attempt of one call of \<^verbatim>\<open>flush_buffer\<close>, counted from 0.
\<close>

datatype send_result = Sent | WouldBlock | Error

type_synonym sink = "nat \<Rightarrow> send_result"

subsection \<open>flush_buffer (lines 314-345)\<close>

text \<open>
  The \<^verbatim>\<open>while\<close> loop of lines 318-344. On \<open>Sent\<close> the counter \<open>events_sent\<close> grows
  and the event is popped; on \<open>WouldBlock\<close> the counter \<open>events_dropped\<close> grows and
  \<^verbatim>\<open>break\<close> leaves the loop before the \<^verbatim>\<open>pop()\<close>; on \<open>Error\<close> the \<^verbatim>\<open>catch\<close>
  block counts a drop and control falls through to the \<^verbatim>\<open>pop()\<close>.
\<close>

function flush_buffer_loop :: "sink \<Rightarrow> nat \<Rightarrow> AIEventExporter \<Rightarrow> AIEventExporter" where
  "flush_buffer_loop snk i s =
     (if event_buffer s = [] then s
      else (case snk i of
              Sent \<Rightarrow>
                flush_buffer_loop snk (Suc i)
                  (s\<lparr>zmq_socket := zmq_socket s @ [hd (event_buffer s)],
                     events_sent := events_sent s + 1,
                     event_buffer := tl (event_buffer s)\<rparr>)
            | WouldBlock \<Rightarrow> s\<lparr>events_dropped := events_dropped s + 1\<rparr>
            | Error \<Rightarrow>
                flush_buffer_loop snk (Suc i)
                  (s\<lparr>events_dropped := events_dropped s + 1,
                     event_buffer := tl (event_buffer s)\<rparr>)))"
  by pat_completeness auto
termination
  by (relation "measure (\<lambda>(snk, i, s). length (event_buffer s))") auto

declare flush_buffer_loop.simps [simp del]

text \<open>
  The whole function: the \<^verbatim>\<open>lock_guard\<close> of line 316, the loop, and the unlock when
  the guard goes out of scope.
\<close>

definition flush_buffer :: "sink \<Rightarrow> AIEventExporter \<Rightarrow> outcome" where
  "flush_buffer snk s =
     (if buffer_mutex s then Fault Relock s
      else Done ((flush_buffer_loop snk 0 (s\<lparr>buffer_mutex := True\<rparr>))\<lparr>buffer_mutex := False\<rparr>))"

text \<open>\<^verbatim>\<open>tterm\<close> (lines 154-157) calls \<^verbatim>\<open>flush_buffer\<close>.\<close>

definition tterm :: "sink \<Rightarrow> AIEventExporter \<Rightarrow> outcome" where
  "tterm snk s = flush_buffer snk s"

subsection \<open>send_event (lines 294-312)\<close>

text \<open>
  Lines 298-305: a buffer that holds \<^verbatim>\<open>buffer_size\<close> events or more loses its oldest
  event, which is counted as dropped; then the new event goes to the back.
\<close>

definition send_event_push :: "AIEventExporterConfig \<Rightarrow> string \<Rightarrow> AIEventExporter \<Rightarrow> outcome" where
  "send_event_push cfg event_json s =
     (if length (event_buffer s) \<ge> buffer_size cfg then
        (case event_buffer s of
           [] \<Rightarrow> Fault PopEmpty s
         | oldest # rest \<Rightarrow>
             Done (s\<lparr>event_buffer := rest @ [event_json],
                     events_dropped := events_dropped s + 1\<rparr>))
      else Done (s\<lparr>event_buffer := event_buffer s @ [event_json]\<rparr>))"

text \<open>
  The whole function: the \<^verbatim>\<open>lock_guard\<close> of line 296, the push, the threshold test of
  line 308 (an unsigned division), and the call of \<^verbatim>\<open>flush_buffer\<close> of line 310, made
  while the guard of line 296 is alive.
\<close>

definition send_event :: "AIEventExporterConfig \<Rightarrow> sink \<Rightarrow> string \<Rightarrow> AIEventExporter \<Rightarrow> outcome" where
  "send_event cfg snk event_json s =
     (if buffer_mutex s then Fault Relock s
      else (case send_event_push cfg event_json (s\<lparr>buffer_mutex := True\<rparr>) of
              Fault f t \<Rightarrow> Fault f t
            | Done s1 \<Rightarrow>
                if length (event_buffer s1) \<ge> buffer_size cfg div 10 then
                  (case flush_buffer snk s1 of
                     Fault f t \<Rightarrow> Fault f t
                   | Done s2 \<Rightarrow> Done (s2\<lparr>buffer_mutex := False\<rparr>))
                else Done (s1\<lparr>buffer_mutex := False\<rparr>)))"

subsection \<open>export_alert, export_flow and eval (lines 172-188, 266-292)\<close>

text \<open>
  An exception of the serializer is caught and counted as a drop. (An allocation failure
  inside \<^verbatim>\<open>send_event\<close> would be caught the same way; the model has no such
  failure.)
\<close>

definition export_alert ::
  "Host \<Rightarrow> AIEventExporterConfig \<Rightarrow> sink \<Rightarrow> Packet \<Rightarrow> AIEventExporter \<Rightarrow> outcome" where
  "export_alert h cfg snk p s =
     (case serialize_packet h p of
        None \<Rightarrow> Done (s\<lparr>events_dropped := events_dropped s + 1\<rparr>)
      | Some event_json \<Rightarrow> send_event cfg snk event_json s)"

text \<open>
  \<^verbatim>\<open>export_flow\<close> is reached only behind the test \<^verbatim>\<open>p->flow\<close> of \<^verbatim>\<open>eval\<close>, so it
  takes the flow itself.
\<close>

definition export_flow ::
  "Host \<Rightarrow> AIEventExporterConfig \<Rightarrow> sink \<Rightarrow> Flow \<Rightarrow> AIEventExporter \<Rightarrow> outcome" where
  "export_flow h cfg snk f s =
     (case serialize_flow h f of
        None \<Rightarrow> Done (s\<lparr>events_dropped := events_dropped s + 1\<rparr>)
      | Some event_json \<Rightarrow> send_event cfg snk event_json s)"

text \<open>
  \<^verbatim>\<open>eval\<close>: a null packet is ignored; the alert is exported when \<open>export_alerts\<close> is
  set and the packet's action is above \<^verbatim>\<open>ACT_PASS\<close>; then the flow is exported when
  \<open>export_flows\<close> is set and the flow is in state \<^verbatim>\<open>INSPECT\<close>. Each of the two exports
  may reach the socket, so each has its sink.
\<close>

definition eval ::
  "Host \<Rightarrow> AIEventExporterConfig \<Rightarrow> sink \<Rightarrow> sink \<Rightarrow> Packet option \<Rightarrow> AIEventExporter \<Rightarrow> outcome" where
  "eval h cfg snk_alert snk_flow pkt s =
     (case pkt of
        None \<Rightarrow> Done s
      | Some p \<Rightarrow>
          (case (if export_alerts cfg \<and> (case active p of None \<Rightarrow> False | Some a \<Rightarrow> a > ACT_PASS h)
                 then export_alert h cfg snk_alert p s
                 else Done s) of
             Fault f t \<Rightarrow> Fault f t
           | Done s1 \<Rightarrow>
               (case flow p of
                  None \<Rightarrow> Done s1
                | Some f \<Rightarrow>
                    if export_flows cfg \<and> flow_state f = INSPECT h
                    then export_flow h cfg snk_flow f s1
                    else Done s1)))"

subsection \<open>Sequences of calls\<close>

text \<open>
  The calls that reach the buffer from outside, each with the answers the socket gives
  during it. A thread that has met a fault makes no further call.
\<close>

datatype call = SendEvent sink string | Tterm sink

fun step :: "AIEventExporterConfig \<Rightarrow> call \<Rightarrow> AIEventExporter \<Rightarrow> outcome" where
  "step cfg (SendEvent snk event_json) s = send_event cfg snk event_json s"
| "step cfg (Tterm snk) s = tterm snk s"

fun run :: "AIEventExporterConfig \<Rightarrow> call list \<Rightarrow> AIEventExporter \<Rightarrow> outcome" where
  "run cfg [] s = Done s"
| "run cfg (c # cs) s =
     (case step cfg c s of
        Fault f t \<Rightarrow> Fault f t
      | Done s1 \<Rightarrow> run cfg cs s1)"

section \<open>The drain loop\<close>

lemma flush_loop_empty:
  "event_buffer s = [] \<Longrightarrow> flush_buffer_loop snk i s = s"
  by (simp add: flush_buffer_loop.simps)

lemma flush_loop_Sent:
  assumes "event_buffer s = ev # rest" and "snk i = Sent"
  shows "flush_buffer_loop snk i s =
           flush_buffer_loop snk (Suc i)
             (s\<lparr>zmq_socket := zmq_socket s @ [ev],
                events_sent := events_sent s + 1,
                event_buffer := rest\<rparr>)"
  using assms by (subst flush_buffer_loop.simps) simp

lemma flush_loop_WouldBlock:
  assumes "event_buffer s \<noteq> []" and "snk i = WouldBlock"
  shows "flush_buffer_loop snk i s = s\<lparr>events_dropped := events_dropped s + 1\<rparr>"
  using assms by (subst flush_buffer_loop.simps) simp

lemma flush_loop_Error:
  assumes "event_buffer s = ev # rest" and "snk i = Error"
  shows "flush_buffer_loop snk i s =
           flush_buffer_loop snk (Suc i)
             (s\<lparr>events_dropped := events_dropped s + 1, event_buffer := rest\<rparr>)"
  using assms by (subst flush_buffer_loop.simps) simp

text \<open>As long as the socket accepts, the loop sends the oldest events in order.\<close>

lemma flush_loop_sent_prefix:
  assumes "\<forall>j<k. snk (i + j) = Sent" and "k \<le> length (event_buffer s)"
  shows "flush_buffer_loop snk i s =
           flush_buffer_loop snk (i + k)
             (s\<lparr>zmq_socket := zmq_socket s @ take k (event_buffer s),
                events_sent := events_sent s + of_nat k,
                event_buffer := drop k (event_buffer s)\<rparr>)"
  using assms
proof (induction k arbitrary: i s)
  case 0
  then show ?case by simp
next
  case (Suc k)
  from Suc.prems(2) obtain ev rest where buf: "event_buffer s = ev # rest"
    by (cases "event_buffer s") auto
  from Suc.prems(1) have first: "snk i = Sent"
    by (metis add.right_neutral zero_less_Suc)
  let ?s1 = "s\<lparr>zmq_socket := zmq_socket s @ [ev], events_sent := events_sent s + 1,
                event_buffer := rest\<rparr>"
  have later: "\<forall>j<k. snk (Suc i + j) = Sent"
    using Suc.prems(1) by (metis Suc_less_eq add_Suc_shift)
  have len: "k \<le> length (event_buffer ?s1)"
    using Suc.prems(2) buf by simp
  have "flush_buffer_loop snk i s = flush_buffer_loop snk (Suc i) ?s1"
    using buf first by (rule flush_loop_Sent)
  also have "\<dots> = flush_buffer_loop snk (Suc i + k)
      (?s1\<lparr>zmq_socket := zmq_socket ?s1 @ take k (event_buffer ?s1),
           events_sent := events_sent ?s1 + of_nat k,
           event_buffer := drop k (event_buffer ?s1)\<rparr>)"
    using later len by (rule Suc.IH)
  finally show ?case
    by (simp add: buf ac_simps)
qed


lemma flush_loop_mutex:
  "buffer_mutex (flush_buffer_loop snk i s) = buffer_mutex s"
proof (induction snk i s rule: flush_buffer_loop.induct)
  case (1 snk i s)
  show ?case
  proof (cases "event_buffer s = []")
    case True
    then show ?thesis by (simp add: flush_loop_empty)
  next
    case False
    then show ?thesis
      using "1.IH"
      by (subst flush_buffer_loop.simps) (cases "snk i"; simp)
  qed
qed

section \<open>flush_buffer\<close>

text \<open>Called with the mutex free, \<^verbatim>\<open>flush_buffer\<close> returns what its loop computes.\<close>

lemma flush_buffer_free:
  assumes "\<not> buffer_mutex s"
  shows "flush_buffer snk s =
           Done ((flush_buffer_loop snk 0 (s\<lparr>buffer_mutex := True\<rparr>))\<lparr>buffer_mutex := False\<rparr>)"
  using assms by (simp add: flush_buffer_def)

text \<open>
  Claim C6. The socket accepts the \<open>k - 1\<close> oldest events and reports that the send
  of the \<open>k\<close>-th would block (\<open>k\<close> counted from 1, among \<open>n \<ge> k\<close> queued events). Then
  \<^verbatim>\<open>flush_buffer\<close> returns; the first \<open>k - 1\<close> events are on the socket, in order, and
  off the buffer; \<open>events_sent\<close> has grown by \<open>k - 1\<close> and \<open>events_dropped\<close> by one;
  the \<open>k\<close>-th event and all behind it are still queued. The result names no answer of
  the sink past the \<open>k\<close>-th, and the counters have moved \<open>k\<close> times in all: no further
  send was attempted.
\<close>

theorem flush_halts_on_would_block:
  assumes free: "\<not> buffer_mutex s"
    and k: "0 < k" "k \<le> length (event_buffer s)"
    and sent: "\<forall>i<k - 1. snk i = Sent"
    and block: "snk (k - 1) = WouldBlock"
  shows "flush_buffer snk s =
           Done (s\<lparr>zmq_socket := zmq_socket s @ take (k - 1) (event_buffer s),
                   events_sent := events_sent s + of_nat (k - 1),
                   events_dropped := events_dropped s + 1,
                   event_buffer := drop (k - 1) (event_buffer s)\<rparr>)"
proof -
  let ?s0 = "s\<lparr>buffer_mutex := True\<rparr>"
  let ?s1 = "?s0\<lparr>zmq_socket := zmq_socket ?s0 @ take (k - 1) (event_buffer ?s0),
                 events_sent := events_sent ?s0 + of_nat (k - 1),
                 event_buffer := drop (k - 1) (event_buffer ?s0)\<rparr>"
  have "\<forall>j<k - 1. snk (0 + j) = Sent"
    using sent by simp
  moreover have "k - 1 \<le> length (event_buffer ?s0)"
    using k by simp
  ultimately have "flush_buffer_loop snk 0 ?s0 = flush_buffer_loop snk (0 + (k - 1)) ?s1"
    by (rule flush_loop_sent_prefix)
  moreover have "event_buffer ?s1 \<noteq> []"
    using k by simp
  then have "flush_buffer_loop snk (k - 1) ?s1 = ?s1\<lparr>events_dropped := events_dropped ?s1 + 1\<rparr>"
    using block by (rule flush_loop_WouldBlock)
  ultimately have "flush_buffer_loop snk 0 ?s0 = ?s1\<lparr>events_dropped := events_dropped ?s1 + 1\<rparr>"
    by simp
  then show ?thesis
    using free by (simp add: flush_buffer_free)
qed

theorem flush_halts_on_would_block_witness:
  "flush_buffer (\<lambda>i. if i = 1 then WouldBlock else Sent)
     (configured_exporter\<lparr>event_buffer := [''a'', ''b'', ''c'']\<rparr>) =
   Done (configured_exporter\<lparr>zmq_socket := [''a''], events_sent := 1, events_dropped := 1,
           event_buffer := [''b'', ''c'']\<rparr>)"
  using flush_halts_on_would_block
    [of "configured_exporter\<lparr>event_buffer := [''a'', ''b'', ''c'']\<rparr>" 2
        "\<lambda>i. if i = 1 then WouldBlock else Sent"]
  by (simp add: configured_exporter_def)

text \<open>
  Claim C8. The sends before position \<open>k\<close> (from 0) are accepted and the send of the
  event at position \<open>k\<close> throws. Then the failed event is counted once in
  \<open>events_dropped\<close>, it is popped without reaching the socket, and the loop goes on
  with attempt \<open>k + 1\<close> on the events behind it, whatever the socket answers there. If
  the socket accepts all of them, \<^verbatim>\<open>flush_buffer\<close> returns with an empty buffer and
  every event but the failed one sent. The single step, in any state of the loop, is
  \<open>flush_loop_Error\<close>.
\<close>

theorem flush_error_does_not_stall:
  assumes free: "\<not> buffer_mutex s"
    and k: "k < length (event_buffer s)"
    and before: "\<forall>i<k. snk i = Sent"
    and err: "snk k = Error"
  shows "flush_buffer snk s =
           Done ((flush_buffer_loop snk (Suc k)
                    (s\<lparr>buffer_mutex := True,
                       zmq_socket := zmq_socket s @ take k (event_buffer s),
                       events_sent := events_sent s + of_nat k,
                       events_dropped := events_dropped s + 1,
                       event_buffer := drop (Suc k) (event_buffer s)\<rparr>))
                 \<lparr>buffer_mutex := False\<rparr>) \<and>
         ((\<forall>i. k < i \<and> i < length (event_buffer s) \<longrightarrow> snk i = Sent) \<longrightarrow>
          flush_buffer snk s =
            Done (s\<lparr>zmq_socket :=
                      zmq_socket s @ take k (event_buffer s) @ drop (Suc k) (event_buffer s),
                    events_sent := events_sent s + of_nat (length (event_buffer s) - 1),
                    events_dropped := events_dropped s + 1,
                    event_buffer := []\<rparr>))"
proof -
  let ?buf = "event_buffer s"
  let ?m = "length ?buf - Suc k"
  let ?s0 = "s\<lparr>buffer_mutex := True\<rparr>"
  let ?s1 = "?s0\<lparr>zmq_socket := zmq_socket s @ take k ?buf,
                 events_sent := events_sent s + of_nat k,
                 event_buffer := drop k ?buf\<rparr>"
  let ?s2 = "s\<lparr>buffer_mutex := True,
               zmq_socket := zmq_socket s @ take k ?buf,
               events_sent := events_sent s + of_nat k,
               events_dropped := events_dropped s + 1,
               event_buffer := drop (Suc k) ?buf\<rparr>"
  let ?s3 = "?s2\<lparr>zmq_socket := zmq_socket ?s2 @ take ?m (event_buffer ?s2),
                 events_sent := events_sent ?s2 + of_nat ?m,
                 event_buffer := drop ?m (event_buffer ?s2)\<rparr>"
  have "\<forall>j<k. snk (0 + j) = Sent"
    using before by simp
  moreover have "k \<le> length (event_buffer ?s0)"
    using k by simp
  ultimately have "flush_buffer_loop snk 0 ?s0 = flush_buffer_loop snk (0 + k)
      (?s0\<lparr>zmq_socket := zmq_socket ?s0 @ take k (event_buffer ?s0),
           events_sent := events_sent ?s0 + of_nat k,
           event_buffer := drop k (event_buffer ?s0)\<rparr>)"
    by (rule flush_loop_sent_prefix)
  then have step1: "flush_buffer_loop snk 0 ?s0 = flush_buffer_loop snk k ?s1"
    by simp
  have "event_buffer ?s1 = ?buf ! k # drop (Suc k) ?buf"
    using k by (simp add: Cons_nth_drop_Suc)
  then have "flush_buffer_loop snk k ?s1 = flush_buffer_loop snk (Suc k)
      (?s1\<lparr>events_dropped := events_dropped ?s1 + 1, event_buffer := drop (Suc k) ?buf\<rparr>)"
    using err by (rule flush_loop_Error)
  then have step2: "flush_buffer_loop snk k ?s1 = flush_buffer_loop snk (Suc k) ?s2"
    by simp
  have "flush_buffer_loop snk 0 ?s0 = flush_buffer_loop snk (Suc k) ?s2"
    by (simp only: step1 step2)
  then have continues:
    "flush_buffer snk s = Done ((flush_buffer_loop snk (Suc k) ?s2)\<lparr>buffer_mutex := False\<rparr>)"
    using free by (simp add: flush_buffer_free)
  have drained: "flush_buffer snk s =
            Done (s\<lparr>zmq_socket := zmq_socket s @ take k ?buf @ drop (Suc k) ?buf,
                    events_sent := events_sent s + of_nat (length ?buf - 1),
                    events_dropped := events_dropped s + 1,
                    event_buffer := []\<rparr>)"
    if later: "\<forall>i. k < i \<and> i < length ?buf \<longrightarrow> snk i = Sent"
  proof -
    have "\<forall>j<?m. snk (Suc k + j) = Sent"
      using later by simp
    moreover have "?m \<le> length (event_buffer ?s2)"
      by simp
    ultimately have step3: "flush_buffer_loop snk (Suc k) ?s2 = flush_buffer_loop snk (Suc k + ?m) ?s3"
      by (rule flush_loop_sent_prefix)
    have "event_buffer ?s3 = []"
      by simp
    then have step4: "flush_buffer_loop snk (Suc k + ?m) ?s3 = ?s3"
      by (rule flush_loop_empty)
    have "k + ?m = length ?buf - 1"
      using k by simp
    then have "(of_nat k :: 64 word) + of_nat ?m = of_nat (length ?buf - 1)"
      by (simp only: of_nat_add [symmetric])
    then have sum: "events_sent s + of_nat k + of_nat ?m = events_sent s + of_nat (length ?buf - 1)"
      by (simp only: add.assoc)
    have "flush_buffer snk s = Done (?s3\<lparr>buffer_mutex := False\<rparr>)"
      by (simp only: continues step3 step4)
    then show ?thesis
      using free sum by simp
  qed
  from continues drained show ?thesis
    by blast
qed

theorem flush_error_does_not_stall_witness:
  "flush_buffer (\<lambda>i. if i = 1 then Error else Sent)
     (configured_exporter\<lparr>event_buffer := [''a'', ''b'', ''c'']\<rparr>) =
   Done (configured_exporter\<lparr>zmq_socket := [''a'', ''c''], events_sent := 2,
           events_dropped := 1, event_buffer := []\<rparr>)"
  using flush_error_does_not_stall
    [of "configured_exporter\<lparr>event_buffer := [''a'', ''b'', ''c'']\<rparr>" 1
        "\<lambda>i. if i = 1 then Error else Sent", THEN conjunct2]
  by (simp add: configured_exporter_def)

section \<open>The push\<close>

text \<open>
  With a capacity above zero the push never meets an empty queue when it evicts, so it
  always returns: it appends the new event, after removing the oldest one when the
  buffer is full.
\<close>

lemma send_event_push_Done:
  assumes "0 < buffer_size cfg"
  shows "send_event_push cfg ev s =
           Done (if buffer_size cfg \<le> length (event_buffer s)
                 then s\<lparr>event_buffer := tl (event_buffer s) @ [ev],
                        events_dropped := events_dropped s + 1\<rparr>
                 else s\<lparr>event_buffer := event_buffer s @ [ev]\<rparr>)"
  using assms by (cases "event_buffer s") (simp_all add: send_event_push_def)


section \<open>send_event and the mutex\<close>

text \<open>
  \<^verbatim>\<open>flush_buffer\<close>, called by a thread that holds the mutex, stops at its
  \<^verbatim>\<open>lock_guard\<close>. This is the state in which line 310 of \<^verbatim>\<open>send_event\<close> calls it, so
  \<^verbatim>\<open>send_event\<close> returns exactly when the push leaves the buffer below the threshold.
\<close>

lemma flush_buffer_held:
  "buffer_mutex s \<Longrightarrow> flush_buffer snk s = Fault Relock s"
  by (simp add: flush_buffer_def)

lemma send_event_free:
  assumes "\<not> buffer_mutex s" and "0 < buffer_size cfg"
  shows "send_event cfg snk ev s =
           (if buffer_size cfg div 10
                 \<le> length (event_buffer (state_of (send_event_push cfg ev (s\<lparr>buffer_mutex := True\<rparr>))))
            then Fault Relock (state_of (send_event_push cfg ev (s\<lparr>buffer_mutex := True\<rparr>)))
            else Done ((state_of (send_event_push cfg ev (s\<lparr>buffer_mutex := True\<rparr>)))
                         \<lparr>buffer_mutex := False\<rparr>))"
  using assms by (simp add: send_event_def send_event_push_Done flush_buffer_held)

lemma send_event_never_sends:
  "zmq_socket (state_of (send_event cfg snk ev s)) = zmq_socket s \<and>
   events_sent (state_of (send_event cfg snk ev s)) = events_sent s"
  by (simp add: send_event_def send_event_push_def flush_buffer_def split: list.split)

subsection \<open>The capacity bound\<close>







subsection \<open>The flush that send_event calls\<close>

text \<open>
  Claim C7. The code at the claim's threshold: with the default configuration the
  threshold is \<open>10000 div 10 = 1000\<close>, and the push of the 1000th queued event meets
  it. \<^verbatim>\<open>send_event\<close> then calls \<^verbatim>\<open>flush_buffer\<close> under its own guard, and the call
  stops at the second \<^verbatim>\<open>lock_guard\<close>: \<^verbatim>\<open>send_event\<close> does not return, all 1000
  events stay queued and nothing is sent, although the sink would accept every message.
  More generally no call of \<^verbatim>\<open>send_event\<close>, in any state and with any sink, puts a
  message on the socket or changes \<open>events_sent\<close>. The flush of \<^verbatim>\<open>tterm\<close>, called
  with the mutex free, does run (\<open>flush_buffer_free\<close>).
\<close>

theorem inline_flush_never_runs:
  "send_event default_config (\<lambda>i. Sent) ev
     (configured_exporter\<lparr>event_buffer := replicate 999 ev0\<rparr>) =
   Fault Relock
     (configured_exporter\<lparr>event_buffer := replicate 999 ev0 @ [ev], buffer_mutex := True\<rparr>) \<and>
   zmq_socket (state_of (send_event cfg snk ev s)) = zmq_socket s \<and>
   events_sent (state_of (send_event cfg snk ev s)) = events_sent s"
  using send_event_never_sends [of cfg snk ev s]
  by (simp add: default_config_def configured_exporter_def send_event_def send_event_push_def
      flush_buffer_def)

text \<open>
  Claim C10. What one thread does is enough to see that the flush which
  \<^verbatim>\<open>send_event\<close> calls is not run inside the critical section of \<^verbatim>\<open>send_event\<close>:
  \<^verbatim>\<open>flush_buffer\<close> opens a section of its own on the same mutex, and entered with the
  mutex held it stops there, whatever the state and the sink. With a capacity of 100
  the tenth call of \<^verbatim>\<open>send_event\<close> is the first to reach the threshold: it stops with
  the mutex held and the ten events queued. (The part of the claim about threads that
  interleave is outside a model of one thread.)
\<close>

theorem flush_inside_critical_section_relocks:
  "flush_buffer snk (s\<lparr>buffer_mutex := True\<rparr>) = Fault Relock (s\<lparr>buffer_mutex := True\<rparr>) \<and>
   run (default_config\<lparr>buffer_size := 100\<rparr>)
     [SendEvent f ''e1'', SendEvent f ''e2'', SendEvent f ''e3'', SendEvent f ''e4'',
      SendEvent f ''e5'', SendEvent f ''e6'', SendEvent f ''e7'', SendEvent f ''e8'',
      SendEvent f ''e9'', SendEvent f ''e10'']
     configured_exporter =
   Fault Relock
     (configured_exporter
        \<lparr>event_buffer := [''e1'', ''e2'', ''e3'', ''e4'', ''e5'', ''e6'', ''e7'', ''e8'', ''e9'', ''e10''],
         buffer_mutex := True\<rparr>)"
  by (simp add: default_config_def configured_exporter_def send_event_def send_event_push_def
      flush_buffer_def)

subsection \<open>Capacity 5\<close>


subsection \<open>Pushing through send_event\<close>

text \<open>
  A call of \<^verbatim>\<open>send_event\<close> returns when the push leaves the buffer below the
  threshold, and then it has evicted nothing. A call that leaves the buffer at the
  threshold or above stops at the second \<^verbatim>\<open>lock_guard\<close>; a call on a full buffer is
  one of these, so the eviction of the oldest event happens only in a call that does
  not return.
\<close>

lemma send_event_below_threshold:
  assumes "\<not> buffer_mutex s" and "0 < buffer_size cfg"
    and "Suc (length (event_buffer s)) < buffer_size cfg div 10"
  shows "send_event cfg snk ev s =
           Done (s\<lparr>event_buffer := event_buffer s @ [ev], buffer_mutex := False\<rparr>)"
proof -
  have "\<not> buffer_size cfg \<le> length (event_buffer s)"
    using assms(3) by simp
  then show ?thesis
    using assms by (simp add: send_event_free send_event_push_Done)
qed

lemma send_event_at_threshold:
  assumes "\<not> buffer_mutex s" and "0 < buffer_size cfg"
    and "length (event_buffer s) < buffer_size cfg"
    and "buffer_size cfg div 10 \<le> Suc (length (event_buffer s))"
  shows "send_event cfg snk ev s =
           Fault Relock (s\<lparr>buffer_mutex := True, event_buffer := event_buffer s @ [ev]\<rparr>)"
  using assms by (simp add: send_event_free send_event_push_Done)

lemma send_event_full:
  assumes "\<not> buffer_mutex s" and "0 < buffer_size cfg"
    and "length (event_buffer s) = buffer_size cfg"
  shows "send_event cfg snk ev s =
           Fault Relock (s\<lparr>buffer_mutex := True,
                           event_buffer := tl (event_buffer s) @ [ev],
                           events_dropped := events_dropped s + 1\<rparr>)"
proof -
  have "buffer_size cfg div 10 \<le> buffer_size cfg"
    by simp
  then show ?thesis
    using assms by (simp add: send_event_free send_event_push_Done)
qed

lemma send_event_Done_never_evicts:
  assumes "0 < buffer_size cfg" and "send_event cfg snk ev s = Done s'"
  shows "event_buffer s' = event_buffer s @ [ev] \<and> events_dropped s' = events_dropped s"
proof (cases "buffer_mutex s")
  case True
  with assms(2) show ?thesis by (simp add: send_event_def)
next
  case False
  have le: "buffer_size cfg div 10 \<le> buffer_size cfg" by simp
  show ?thesis
  proof (cases "buffer_size cfg \<le> length (event_buffer s)")
    case True
    with assms False le show ?thesis
      by (simp add: send_event_free send_event_push_Done split: if_splits)
  next
    case full: False
    with assms False show ?thesis
      by (auto simp add: send_event_free send_event_push_Done split: if_splits)
  qed
qed

text \<open>
  Calls of \<^verbatim>\<open>send_event\<close> one after another, starting with an empty buffer: they
  return as long as the buffer stays below the threshold, and the call that brings it to
  \<open>max 1 (C div 10)\<close> events stops. No later event is pushed.
\<close>

lemma run_append:
  "run cfg (xs @ ys) s =
     (case run cfg xs s of Fault f t \<Rightarrow> Fault f t | Done s1 \<Rightarrow> run cfg ys s1)"
  by (induction xs arbitrary: s) (simp_all split: outcome.split)

lemma run_sends_below_threshold:
  assumes "\<not> buffer_mutex s" and "0 < buffer_size cfg"
    and "length (event_buffer s) + length items \<le> buffer_size cfg div 10 - 1"
  shows "run cfg (map (SendEvent snk) items) s =
           Done (s\<lparr>event_buffer := event_buffer s @ items, buffer_mutex := False\<rparr>)"
  using assms(1,3)
proof (induction items arbitrary: s)
  case Nil
  then show ?case by simp
next
  case (Cons e es)
  let ?s1 = "s\<lparr>event_buffer := event_buffer s @ [e], buffer_mutex := False\<rparr>"
  have "Suc (length (event_buffer s)) < buffer_size cfg div 10"
    using Cons.prems(2) by simp
  with Cons.prems(1) assms(2) have first: "send_event cfg snk e s = Done ?s1"
    by (rule send_event_below_threshold)
  have "\<not> buffer_mutex ?s1"
    by simp
  moreover have "length (event_buffer ?s1) + length es \<le> buffer_size cfg div 10 - 1"
    using Cons.prems(2) by simp
  ultimately have "run cfg (map (SendEvent snk) es) ?s1 =
      Done (?s1\<lparr>event_buffer := event_buffer ?s1 @ es, buffer_mutex := False\<rparr>)"
    by (rule Cons.IH)
  with first show ?case by simp
qed

lemma run_sends_stop_at_threshold:
  assumes free: "\<not> buffer_mutex s" and pos: "0 < buffer_size cfg"
    and empty: "event_buffer s = []"
    and enough: "max 1 (buffer_size cfg div 10) \<le> length items"
  shows "run cfg (map (SendEvent snk) items) s =
           Fault Relock
             (s\<lparr>buffer_mutex := True,
                event_buffer := take (max 1 (buffer_size cfg div 10)) items\<rparr>)"
proof -
  let ?k = "max 1 (buffer_size cfg div 10)"
  let ?pre = "take (?k - 1) items"
  let ?s1 = "s\<lparr>event_buffer := event_buffer s @ ?pre, buffer_mutex := False\<rparr>"
  have k: "?k - 1 < length items" "0 < ?k"
    using enough by (auto simp add: max_def split: if_splits)
  then have split: "items = ?pre @ items ! (?k - 1) # drop ?k items"
    by (metis Suc_pred' id_take_nth_drop)
  have take_k: "take ?k items = ?pre @ [items ! (?k - 1)]"
    using k by (metis Suc_pred' take_Suc_conv_app_nth)
  have km1: "?k - 1 = buffer_size cfg div 10 - 1"
    by (simp add: max_def)
  have "length (event_buffer s) + length ?pre \<le> buffer_size cfg div 10 - 1"
    using empty k km1 by simp
  with free pos have pre: "run cfg (map (SendEvent snk) ?pre) s = Done ?s1"
    by (rule run_sends_below_threshold)
  have len: "length (event_buffer ?s1) = ?k - 1"
    using empty k by simp
  have "buffer_size cfg div 10 \<le> buffer_size cfg"
    by simp
  then have "length (event_buffer ?s1) < buffer_size cfg"
    using pos len km1 by arith
  moreover have "buffer_size cfg div 10 \<le> Suc (length (event_buffer ?s1))"
    using len km1 by arith
  moreover have "\<not> buffer_mutex ?s1" by simp
  ultimately have stop: "send_event cfg snk (items ! (?k - 1)) ?s1 =
      Fault Relock (?s1\<lparr>buffer_mutex := True,
                       event_buffer := event_buffer ?s1 @ [items ! (?k - 1)]\<rparr>)"
    using pos by (simp add: send_event_at_threshold)
  have "run cfg (map (SendEvent snk) items) s =
          run cfg (map (SendEvent snk) ?pre @ SendEvent snk (items ! (?k - 1))
                     # map (SendEvent snk) (drop ?k items)) s"
    by (subst split) simp
  also have "\<dots> = Fault Relock (?s1\<lparr>buffer_mutex := True,
                       event_buffer := event_buffer ?s1 @ [items ! (?k - 1)]\<rparr>)"
    by (simp only: run_append pre outcome.case run.simps step.simps stop)
  finally show ?thesis
    using empty take_k by simp
qed

text \<open>
  Claim C9. The code at an input of the claim: capacity \<open>C = 100\<close> and \<open>C + 1 = 101\<close>
  events \<open>ev 0, \<dots>, ev 100\<close>, pushed by \<^verbatim>\<open>send_event\<close> into the configured exporter,
  whatever the sink answers. The tenth call reaches the threshold \<open>100 div 10\<close> and
  stops at the second \<^verbatim>\<open>lock_guard\<close>: the buffer holds the first ten events, the
  first one among them, \<open>events_dropped\<close> is 0, and the events 11 to 101 are never
  pushed, where the claim has the events 2 to 101 in the buffer and the first one
  dropped. For any capacity above zero the run stops in the same way
  (\<open>run_sends_stop_at_threshold\<close>).
\<close>

theorem capacity_plus_one_pushes_stop_at_threshold:
  "run (default_config\<lparr>buffer_size := 100\<rparr>) (map (SendEvent snk) (map ev [0..<101]))
     configured_exporter =
   Fault Relock (configured_exporter\<lparr>event_buffer := map ev [0..<10], buffer_mutex := True\<rparr>)"
  using run_sends_stop_at_threshold
    [of configured_exporter "default_config\<lparr>buffer_size := 100\<rparr>" "map ev [0..<101]" snk]
  by (simp add: default_config_def configured_exporter_def take_map)

section \<open>eval and the severity floor\<close>

text \<open>No function on the path from \<^verbatim>\<open>eval\<close> to the buffer reads \<open>min_severity\<close>.\<close>

lemma send_event_ignores_min_severity:
  "send_event (cfg\<lparr>min_severity := m\<rparr>) snk ev s = send_event cfg snk ev s"
  by (simp add: send_event_def send_event_push_def cong: outcome.case_cong)

lemma export_alert_ignores_min_severity:
  "export_alert h (cfg\<lparr>min_severity := m\<rparr>) snk p s = export_alert h cfg snk p s"
  by (simp add: export_alert_def send_event_ignores_min_severity cong: option.case_cong)

lemma export_flow_ignores_min_severity:
  "export_flow h (cfg\<lparr>min_severity := m\<rparr>) snk f s = export_flow h cfg snk f s"
  by (simp add: export_flow_def send_event_ignores_min_severity cong: option.case_cong)

lemma eval_ignores_min_severity:
  "eval h (cfg\<lparr>min_severity := m\<rparr>) snk_alert snk_flow pkt s = eval h cfg snk_alert snk_flow pkt s"
  by (simp add: eval_def export_alert_ignores_min_severity export_flow_ignores_min_severity
      cong: option.case_cong outcome.case_cong if_cong)

text \<open>
  Claim C1. The code at an input where the claim and the code part: \<open>min_severity\<close> is
  \<open>''medium''\<close>, the packet carries an alert of severity \<open>Low\<close>, and its action is
  above \<^verbatim>\<open>ACT_PASS\<close>. \<^verbatim>\<open>eval\<close> puts the serialized alert into the buffer. The only
  tests in front of \<^verbatim>\<open>export_alert\<close> are \<open>export_alerts\<close> and the action, and
  \<open>eval_ignores_min_severity\<close> shows that the configured floor changes nothing.
\<close>

theorem eval_exports_low_alert_under_medium:
  "eval (h\<lparr>serialize_packet := \<lambda>p. Some ''alert''\<rparr>)
        (default_config\<lparr>min_severity := ''medium''\<rparr>) snk_alert snk_flow
        (Some \<lparr>active = Some (Suc (ACT_PASS h)), flow = None, severity = Low\<rparr>)
        configured_exporter =
   Done (configured_exporter\<lparr>event_buffer := [''alert'']\<rparr>)"
  by (simp add: eval_def export_alert_def send_event_def send_event_push_def
      default_config_def configured_exporter_def)

section \<open>The counters\<close>

text \<open>
  The sum \<open>events_sent + events_dropped + occupancy\<close> (in 64-bit arithmetic) grows by
  one with every push. A run of the drain loop leaves it as it was when the loop empties
  the buffer, and raises it by one when the loop stops at a send that would block: that
  event is counted in \<open>events_dropped\<close> and is still in the buffer.
\<close>

lemma push_accounting:
  assumes "0 < buffer_size cfg"
  shows "events_sent (state_of (send_event_push cfg ev s))
           + events_dropped (state_of (send_event_push cfg ev s))
           + of_nat (length (event_buffer (state_of (send_event_push cfg ev s)))) =
         events_sent s + events_dropped s + of_nat (length (event_buffer s)) + 1"
  using assms by (cases "event_buffer s") (simp_all add: send_event_push_Done)

lemma flush_loop_accounting:
  "events_sent (flush_buffer_loop snk i s) + events_dropped (flush_buffer_loop snk i s)
     + of_nat (length (event_buffer (flush_buffer_loop snk i s))) =
   events_sent s + events_dropped s + of_nat (length (event_buffer s))
     + (if event_buffer (flush_buffer_loop snk i s) = [] then 0 else 1)"
proof (induction snk i s rule: flush_buffer_loop.induct)
  case (1 snk i s)
  show ?case
  proof (cases "event_buffer s")
    case Nil
    then show ?thesis by (simp add: flush_loop_empty)
  next
    case (Cons ev rest)
    then have ne: "event_buffer s \<noteq> []" by simp
    show ?thesis
    proof (cases "snk i")
      case Sent
      from "1.IH"(1) [OF ne Sent] Cons show ?thesis
        by (simp add: flush_loop_Sent [where snk = snk and i = i, OF Cons Sent] ac_simps)
    next
      case WouldBlock
      then show ?thesis
        using Cons by (simp add: flush_loop_WouldBlock [where snk = snk and i = i, OF ne WouldBlock])
    next
      case Error
      from "1.IH"(2) [OF ne Error] Cons show ?thesis
        by (simp add: flush_loop_Error [where snk = snk and i = i, OF Cons Error] ac_simps)
    qed
  qed
qed

text \<open>
  Claim C3. An execution in which one event is counted twice: the event is pushed (the
  default threshold of 1000 is not met, so \<^verbatim>\<open>send_event\<close> returns); a flush at
  \<^verbatim>\<open>tterm\<close> meets a socket that would block, adds one to \<open>events_dropped\<close> and leaves
  the event queued; a second flush sends that same event and adds one to
  \<open>events_sent\<close>. One event went in; both counters stand at 1.
\<close>

theorem would_block_event_is_counted_dropped_and_sent:
  "send_event default_config snk ev configured_exporter =
     Done (configured_exporter\<lparr>event_buffer := [ev]\<rparr>) \<and>
   tterm (\<lambda>i. WouldBlock) (configured_exporter\<lparr>event_buffer := [ev]\<rparr>) =
     Done (configured_exporter\<lparr>event_buffer := [ev], events_dropped := 1\<rparr>) \<and>
   tterm (\<lambda>i. Sent) (configured_exporter\<lparr>event_buffer := [ev], events_dropped := 1\<rparr>) =
     Done (configured_exporter\<lparr>zmq_socket := [ev], events_sent := 1, events_dropped := 1\<rparr>)"
  by (simp add: default_config_def configured_exporter_def send_event_def send_event_push_def
      tterm_def flush_buffer_def flush_buffer_loop.simps)

text \<open>
  Claim C2. The code at an input where the claim and the code part: two events are
  pushed; a first flush sends the older one and is told that the send of the other would
  block; a second flush sends the other and drains the buffer. Two events were pushed
  and none is left, yet \<open>events_sent + events_dropped\<close> is \<open>2 + 1 = 3\<close>.
\<close>

theorem would_block_breaks_counter_conservation:
  "run default_config
     [SendEvent snk1 ''e1'', SendEvent snk2 ''e2'',
      Tterm (\<lambda>i. if i = 0 then Sent else WouldBlock), Tterm (\<lambda>i. Sent)]
     configured_exporter =
   Done (configured_exporter\<lparr>zmq_socket := [''e1'', ''e2''], events_sent := 2,
           events_dropped := 1\<rparr>)"
  by (simp add: default_config_def configured_exporter_def send_event_def send_event_push_def
      tterm_def flush_buffer_def flush_buffer_loop.simps)

end
